theory Spec2Isabelle
  imports
    Main
    "HOL-Library.AList"
    "HOL-Library.Char_ord"
    "HOL-Library.List_Lexorder"
    "HOL-Library.Word"
begin

unbundle bit_operations_syntax

section \<open>Data model of sqlrunner.go\<close>

text \<open>
  A Go \<^verbatim>\<open>string\<close> is a sequence of bytes, and so is \<^typ>\<open>string\<close>; Go compares strings
  byte by byte, which is the order of \<^theory_text>\<open>List_Lexorder\<close> over \<^theory_text>\<open>Char_ord\<close>.
  An \<^verbatim>\<open>error\<close> is modelled by its message (\<^verbatim>\<open>err.Error()\<close>), since the source only
  ever formats errors with \<^verbatim>\<open>%v\<close> or writes their text.
\<close>

type_synonym byte = "8 word"

text \<open>
  The values that \<^verbatim>\<open>Scan\<close> stores in an \<^verbatim>\<open>interface{}\<close>: \<^verbatim>\<open>nil\<close> for SQL NULL, and the
  kinds of \<^verbatim>\<open>driver.Value\<close> together with those the MySQL driver adds to them: \<^verbatim>\<open>int64\<close>,
  \<^verbatim>\<open>uint64\<close> (\<^verbatim>\<open>BIGINT UNSIGNED\<close>), \<^verbatim>\<open>float32\<close> (\<^verbatim>\<open>FLOAT\<close>) and \<^verbatim>\<open>float64\<close>, both kept
  as their IEEE 754 bit patterns, \<^verbatim>\<open>bool\<close>, \<^verbatim>\<open>[]byte\<close> (\<open>None\<close> is the \<^verbatim>\<open>nil\<close> slice, which
  is not the empty one), \<^verbatim>\<open>string\<close> and \<^verbatim>\<open>time.Time\<close>. A \<^verbatim>\<open>time.Time\<close> is represented
  by what its \<^verbatim>\<open>MarshalJSON\<close> method returns: an error text, or the RFC 3339 text of the
  instant.
\<close>

datatype dbvalue =
    VNil
  | VInt64 "64 word"
  | VUint64 "64 word"
  | VFloat32 "32 word"
  | VFloat64 "64 word"
  | VBool bool
  | VBytes "byte list option"
  | VString string
  | VTime "string + string"

text \<open>
  JSON documents as \<^verbatim>\<open>json.Marshal\<close> writes them. \<open>JString s\<close> is a string literal that
  denotes the bytes \<open>s\<close>, and so is the key of a member; \<open>JBase64 bs\<close> is the string
  literal that holds the base64 text of \<open>bs\<close>; \<open>JFloat32\<close> and \<open>JFloat\<close> are the numbers
  written for a \<^verbatim>\<open>float32\<close> and a \<^verbatim>\<open>float64\<close>. The members of an object are kept in the
  order of the text, and two of them may have the same key.
\<close>

datatype json =
    JNull
  | JBool bool
  | JInt int
  | JFloat32 "32 word"
  | JFloat "64 word"
  | JString string
  | JBase64 "byte list"
  | JArray "json list"
  | JObject "(string \<times> json) list"

text \<open>
  JSON values as \<^verbatim>\<open>json.Decoder\<close> reads them: a number is kept as its literal, a string
  and the key of a member as the bytes the literal denotes.
\<close>

datatype jvalue =
    JVNull
  | JVBool bool
  | JVNumber string
  | JVString string
  | JVArray "jvalue list"
  | JVObject "(string \<times> jvalue) list"

text \<open>\<^verbatim>\<open>type DBConfig struct { DSN string }\<close>\<close>

record DBConfig =
  DSN :: string

text \<open>\<^verbatim>\<open>type SQLRequest struct { Query string `json:"query"` }\<close>\<close>

record SQLRequest =
  Query :: string

text \<open>
  A \<^verbatim>\<open>map[string]interface{}\<close>: an association list with one entry per key. The source
  never ranges over the map, and the encoder sorts the keys, so the position of an entry in
  the list is not observed. \<open>m[k] = v\<close> is \<^const>\<open>AList.update\<close>.
\<close>

type_synonym rowmap = "(string \<times> dbvalue) list"

text \<open>
  \<^verbatim>\<open>type SQLResponse struct { Result []map[string]interface{} `json:"result"`;
  Error string `json:"error,omitempty"` }\<close>. A slice is \<open>None\<close> when it is \<^verbatim>\<open>nil\<close>.
\<close>

record SQLResponse =
  Result :: "rowmap list option"
  Error :: string

section \<open>The database as the source sees it\<close>

text \<open>
  A cursor (\<^verbatim>\<open>*sql.Rows\<close>): what \<^verbatim>\<open>rows.Columns()\<close> returns, the rows that \<^verbatim>\<open>rows.Next()\<close>
  delivers before it returns false, and what \<^verbatim>\<open>rows.Err()\<close> returns then. A delivered row
  is \<open>Inr cells\<close>, or \<open>Inl e\<close> when \<^verbatim>\<open>rows.Scan\<close> on it reports \<open>e\<close>.
\<close>

record cursor =
  Columns :: "string + string list"
  Fetched :: "(string + dbvalue list) list"
  Err :: "string option"

text \<open>\<^verbatim>\<open>db.Query(query)\<close> of a handle, and \<^verbatim>\<open>sql.Open("mysql", dsn)\<close>.\<close>

type_synonym db = "string \<Rightarrow> string + cursor"

type_synonym sql = "string \<Rightarrow> string + db"

text \<open>The calls \<^verbatim>\<open>ExecuteSQL\<close> makes on the database layer, in the order it makes them.\<close>

datatype event =
    SqlOpen string
  | DBQuery string
  | RowsColumns
  | RowsNext
  | RowsScan
  | RowsErr
  | RowsClose
  | DBClose

section \<open>Library behaviour the source relies on\<close>

subsection \<open>\<^verbatim>\<open>rows.Scan\<close>\<close>

fun string_of_nat :: "nat \<Rightarrow> string" where
  "string_of_nat n =
     (if n < 10 then [char_of (48 + n)]
      else string_of_nat (n div 10) @ [char_of (48 + n mod 10)])"

declare string_of_nat.simps [simp del]

text \<open>
  \<^verbatim>\<open>Scan\<close> with \<open>n\<close> destinations of type \<^verbatim>\<open>*interface{}\<close>: it refuses a destination count
  that differs from the row's column count, and otherwise stores every cell as it is.
\<close>

definition Scan :: "nat \<Rightarrow> string + dbvalue list \<Rightarrow> string + dbvalue list" where
  "Scan n r =
     (case r of
        Inl e \<Rightarrow> Inl e
      | Inr cells \<Rightarrow>
          if length cells \<noteq> n
          then Inl (''sql: expected '' @ string_of_nat (length cells)
                    @ '' destination arguments in Scan, not '' @ string_of_nat n)
          else Inr cells)"

subsection \<open>\<^verbatim>\<open>json.Marshal\<close>\<close>

text \<open>
  \<^verbatim>\<open>utf8.DecodeRuneInString\<close>: the number of bytes of the UTF-8 encoding at the start of a
  string, or \<open>0\<close> when the string does not start with a well-formed encoding (Go then
  returns \<^verbatim>\<open>RuneError\<close> with width 1). The second byte of an encoding is confined to a
  range that depends on the first, the third and fourth to \<^verbatim>\<open>0x80\<close>..\<^verbatim>\<open>0xBF\<close>.
\<close>

definition accept_lo :: "char \<Rightarrow> char" where
  "accept_lo c0 =
     (if c0 = CHR 0xE0 then CHR 0xA0 else if c0 = CHR 0xF0 then CHR 0x90 else CHR 0x80)"

definition accept_hi :: "char \<Rightarrow> char" where
  "accept_hi c0 =
     (if c0 = CHR 0xED then CHR 0x9F else if c0 = CHR 0xF4 then CHR 0x8F else CHR 0xBF)"

definition continuation :: "char \<Rightarrow> bool" where
  "continuation c = (CHR 0x80 \<le> c \<and> c \<le> CHR 0xBF)"

fun rune_size :: "string \<Rightarrow> nat" where
  "rune_size [] = 0"
| "rune_size (c0 # cs) =
     (if c0 < CHR 0x80 then 1
      else if CHR 0xC2 \<le> c0 \<and> c0 \<le> CHR 0xDF then
        (case cs of
           c1 # _ \<Rightarrow> if continuation c1 then 2 else 0
         | _ \<Rightarrow> 0)
      else if CHR 0xE0 \<le> c0 \<and> c0 \<le> CHR 0xEF then
        (case cs of
           c1 # c2 # _ \<Rightarrow>
             if accept_lo c0 \<le> c1 \<and> c1 \<le> accept_hi c0 \<and> continuation c2 then 3 else 0
         | _ \<Rightarrow> 0)
      else if CHR 0xF0 \<le> c0 \<and> c0 \<le> CHR 0xF4 then
        (case cs of
           c1 # c2 # c3 # _ \<Rightarrow>
             if accept_lo c0 \<le> c1 \<and> c1 \<le> accept_hi c0 \<and> continuation c2
                \<and> continuation c3
             then 4 else 0
         | _ \<Rightarrow> 0)
      else 0)"

text \<open>
  The bytes a string literal written by the encoder denotes: the string itself, with every
  byte that does not start a well-formed encoding replaced by U+FFFD (\<^verbatim>\<open>EF BF BD\<close> in
  UTF-8). (Escapes change the text of the literal, not the bytes it denotes.)
\<close>

function coerce :: "string \<Rightarrow> string" where
  "coerce [] = []"
| "coerce (c # cs) =
     (if c < CHR 0x80 then c # coerce cs
      else
        (let n = rune_size (c # cs) in
         if n = 0 then [CHR 0xEF, CHR 0xBF, CHR 0xBD] @ coerce cs
         else take n (c # cs) @ coerce (drop n (c # cs))))"
  by pat_completeness auto

termination coerce
  by (relation "measure length") (auto simp del: rune_size.simps)

text \<open>\<^verbatim>\<open>utf8.ValidString\<close>: every byte belongs to a well-formed encoding.\<close>

function valid_utf8 :: "string \<Rightarrow> bool" where
  "valid_utf8 [] = True"
| "valid_utf8 (c # cs) =
     (if c < CHR 0x80 then valid_utf8 cs
      else
        (let n = rune_size (c # cs) in
         if n = 0 then False else valid_utf8 (drop n (c # cs))))"
  by pat_completeness auto

termination valid_utf8
  by (relation "measure length") (auto simp del: rune_size.simps)

text \<open>
  A \<^verbatim>\<open>float64\<close> is NaN or an infinity when its exponent field is all ones, and so is a
  \<^verbatim>\<open>float32\<close>; the encoder refuses both.
\<close>

definition nonfinite :: "64 word \<Rightarrow> bool" where
  "nonfinite f = (drop_bit 52 f AND 0x7FF = 0x7FF)"

definition format_nonfinite :: "64 word \<Rightarrow> string" where
  "format_nonfinite f =
     (if take_bit 52 f \<noteq> 0 then ''NaN'' else if bit f 63 then ''-Inf'' else ''+Inf'')"

definition nonfinite32 :: "32 word \<Rightarrow> bool" where
  "nonfinite32 f = (drop_bit 23 f AND 0xFF = 0xFF)"

definition format_nonfinite32 :: "32 word \<Rightarrow> string" where
  "format_nonfinite32 f =
     (if take_bit 23 f \<noteq> 0 then ''NaN'' else if bit f 31 then ''-Inf'' else ''+Inf'')"

fun marshal_value :: "dbvalue \<Rightarrow> string + json" where
  "marshal_value VNil = Inr JNull"
| "marshal_value (VInt64 n) = Inr (JInt (sint n))"
| "marshal_value (VUint64 n) = Inr (JInt (uint n))"
| "marshal_value (VFloat32 f) =
     (if nonfinite32 f then Inl (''json: unsupported value: '' @ format_nonfinite32 f)
      else Inr (JFloat32 f))"
| "marshal_value (VFloat64 f) =
     (if nonfinite f then Inl (''json: unsupported value: '' @ format_nonfinite f)
      else Inr (JFloat f))"
| "marshal_value (VBool b) = Inr (JBool b)"
| "marshal_value (VBytes None) = Inr JNull"
| "marshal_value (VBytes (Some bs)) = Inr (JBase64 bs)"
| "marshal_value (VString s) = Inr (JString (coerce s))"
| "marshal_value (VTime t) =
     (case t of
        Inl e \<Rightarrow> Inl (''json: error calling MarshalJSON for type time.Time: '' @ e)
      | Inr s \<Rightarrow> Inr (JString s))"

text \<open>
  The entries of a map, already sorted, written one after the other: the key as a string
  literal, then the value.
\<close>

fun marshal_entries :: "(string \<times> dbvalue) list \<Rightarrow> string + (string \<times> json) list" where
  "marshal_entries [] = Inr []"
| "marshal_entries ((k, v) # kvs) =
     (case marshal_value v of
        Inl e \<Rightarrow> Inl e
      | Inr j \<Rightarrow>
          (case marshal_entries kvs of
             Inl e \<Rightarrow> Inl e
           | Inr js \<Rightarrow> Inr ((coerce k, j) # js)))"

text \<open>
  A map is written as an object with one member per entry, the entries sorted by the bytes
  of their keys (before the keys are written as literals).
\<close>

definition marshal_map :: "rowmap \<Rightarrow> string + json" where
  "marshal_map m =
     (case marshal_entries (sort_key fst m) of
        Inl e \<Rightarrow> Inl e
      | Inr js \<Rightarrow> Inr (JObject js))"

fun marshal_slice :: "rowmap list \<Rightarrow> string + json list" where
  "marshal_slice [] = Inr []"
| "marshal_slice (m # ms) =
     (case marshal_map m of
        Inl e \<Rightarrow> Inl e
      | Inr j \<Rightarrow>
          (case marshal_slice ms of
             Inl e \<Rightarrow> Inl e
           | Inr js \<Rightarrow> Inr (j # js)))"

text \<open>
  The struct is written field by field in declaration order; a \<^verbatim>\<open>nil\<close> slice is \<^verbatim>\<open>null\<close>,
  any other slice an array; \<^verbatim>\<open>omitempty\<close> leaves out an empty \<^verbatim>\<open>Error\<close>.
\<close>

definition Marshal :: "SQLResponse \<Rightarrow> string + json" where
  "Marshal resp =
     (case (case Result resp of
              None \<Rightarrow> Inr JNull
            | Some ms \<Rightarrow>
                (case marshal_slice ms of Inl e \<Rightarrow> Inl e | Inr js \<Rightarrow> Inr (JArray js))) of
        Inl e \<Rightarrow> Inl e
      | Inr r \<Rightarrow>
          Inr (JObject ((''result'', r)
                 # (if Error resp = [] then [] else [(''error'', JString (Error resp))]))))"

subsection \<open>\<^verbatim>\<open>json.NewDecoder(r.Body).Decode\<close>\<close>

text \<open>
  The decoder reads the first JSON value of the body and does not look at what follows it.
  \<open>Value j rest\<close> is a body made of white space, the value \<open>j\<close> and then the bytes
  \<open>rest\<close>; \<open>NoValue\<close> is a body from which no first value can be read (empty, or
  malformed before a first value is complete). The body as a whole is a JSON text when
  only white space follows the value.
\<close>

datatype stream = NoValue | Value jvalue string

definition is_space :: "char \<Rightarrow> bool" where
  "is_space c = (c = CHR '' '' \<or> c = CHR 0x09 \<or> c = CHR 0x0A \<or> c = CHR 0x0D)"

fun json_text :: "stream \<Rightarrow> bool" where
  "json_text NoValue = False"
| "json_text (Value j rest) = list_all is_space rest"

datatype decode_error = SyntaxError | UnmarshalTypeError

text \<open>An upper-case ASCII letter becomes the lower-case one by setting bit 5 (adding 32).\<close>

definition to_lower :: "char \<Rightarrow> char" where
  "to_lower c =
     (if CHR ''A'' \<le> c \<and> c \<le> CHR ''Z''
      then (case c of Char b0 b1 b2 b3 b4 b5 b6 b7 \<Rightarrow> Char b0 b1 b2 b3 b4 True b6 b7)
      else c)"

text \<open>A member's key selects the field \<^verbatim>\<open>Query\<close> when it equals \<^verbatim>\<open>query\<close> up to letter case.\<close>

definition names_query :: "string \<Rightarrow> bool" where
  "names_query k = (map to_lower k = ''query'')"

text \<open>
  The members of an object are taken in order. A string is stored in the field, \<^verbatim>\<open>null\<close>
  leaves it as it is, any other value is a type error, which is kept while decoding goes
  on; members with other keys are skipped.
\<close>

fun decode_members :: "(string \<times> jvalue) list \<Rightarrow> SQLRequest \<Rightarrow> bool \<Rightarrow> SQLRequest \<times> bool" where
  "decode_members [] req bad = (req, bad)"
| "decode_members ((k, v) # kvs) req bad =
     (if names_query k then
        (case v of
           JVString s \<Rightarrow> decode_members kvs (req\<lparr>Query := s\<rparr>) bad
         | JVNull \<Rightarrow> decode_members kvs req bad
         | _ \<Rightarrow> decode_members kvs req True)
      else decode_members kvs req bad)"

definition Decode :: "stream \<Rightarrow> SQLRequest \<Rightarrow> decode_error + SQLRequest" where
  "Decode body req =
     (case body of
        NoValue \<Rightarrow> Inl SyntaxError
      | Value JVNull rest \<Rightarrow> Inr req
      | Value (JVObject kvs) rest \<Rightarrow>
          (case decode_members kvs req False of
             (req', bad) \<Rightarrow> if bad then Inl UnmarshalTypeError else Inr req')
      | Value _ rest \<Rightarrow> Inl UnmarshalTypeError)"

section \<open>\<^verbatim>\<open>ExecuteSQL\<close>\<close>

text \<open>
  The text \<^verbatim>\<open>ExecuteSQL\<close> returns and the handler writes: plain text, or the text of a JSON
  document.
\<close>

datatype payload = Plain string | Document json

text \<open>
  Lines 77 to 81: \<^verbatim>\<open>rowMap := make(map[string]interface{})\<close>, then
  \<^verbatim>\<open>rowMap[colName] = *val\<close> for every column in order. \<open>columnData\<close> has
  \<^verbatim>\<open>len(columns)\<close> elements by construction (line 68).
\<close>

definition rowMap :: "string list \<Rightarrow> dbvalue list \<Rightarrow> rowmap" where
  "rowMap columns columnData =
     fold (\<lambda>(colName, val) m. AList.update colName val m) (zip columns columnData) []"

text \<open>
  The loop of lines 66 to 83 over the rows the cursor delivers, with \<open>result\<close> the slice
  built so far. It ends with the call of \<^verbatim>\<open>rows.Next()\<close> that returns false, or with the
  return of line 74.
\<close>

fun iterate ::
  "string list \<Rightarrow> (string + dbvalue list) list \<Rightarrow> rowmap list \<Rightarrow> (string + rowmap list) \<times> event list"
where
  "iterate columns [] result = (Inr result, [RowsNext])"
| "iterate columns (r # rs) result =
     (case Scan (length columns) r of
        Inl err \<Rightarrow> (Inl (''failed to scan row: '' @ err), [RowsNext, RowsScan])
      | Inr columnData \<Rightarrow>
          (case iterate columns rs (result @ [rowMap columns columnData]) of
             (res, tr) \<Rightarrow> (res, RowsNext # RowsScan # tr)))"

text \<open>Lines 58 to 96, the part of the body that runs after \<^verbatim>\<open>defer rows.Close()\<close>.\<close>

definition ExecuteSQL_rows :: "cursor \<Rightarrow> (payload \<times> string option) \<times> event list" where
  "ExecuteSQL_rows rows =
     (case Columns rows of
        Inl err \<Rightarrow> ((Plain [], Some (''failed to get columns: '' @ err)), [RowsColumns])
      | Inr columns \<Rightarrow>
          (case iterate columns (Fetched rows) [] of
             (Inl err, tr) \<Rightarrow> ((Plain [], Some err), RowsColumns # tr)
           | (Inr result, tr) \<Rightarrow>
               (case Err rows of
                  Some err \<Rightarrow>
                    ((Plain [], Some (''error iterating over rows: '' @ err)),
                     RowsColumns # tr @ [RowsErr])
                | None \<Rightarrow>
                    (case Marshal \<lparr>Result = Some result, Error = []\<rparr> of
                       Inl err \<Rightarrow>
                         ((Plain [], Some (''failed to marshal result to JSON: '' @ err)),
                          RowsColumns # tr @ [RowsErr])
                     | Inr jsonResult \<Rightarrow>
                         ((Document jsonResult, None), RowsColumns # tr @ [RowsErr])))))"

text \<open>
  Lines 51 to 96, the part that runs after \<^verbatim>\<open>defer db.Close()\<close>. The deferred
  \<^verbatim>\<open>rows.Close()\<close> runs when the function returns, whatever the return.
\<close>

definition ExecuteSQL_db :: "db \<Rightarrow> string \<Rightarrow> (payload \<times> string option) \<times> event list" where
  "ExecuteSQL_db db query =
     (case db query of
        Inl err \<Rightarrow> ((Plain [], Some (''query execution failed: '' @ err)), [DBQuery query])
      | Inr rows \<Rightarrow>
          (case ExecuteSQL_rows rows of
             (res, tr) \<Rightarrow> (res, DBQuery query # tr @ [RowsClose])))"

text \<open>
  \<^verbatim>\<open>func (config *DBConfig) ExecuteSQL(query string) (string, error)\<close>, given the database
  layer: the pair it returns and the calls it made.
\<close>

definition ExecuteSQL :: "sql \<Rightarrow> DBConfig \<Rightarrow> string \<Rightarrow> (payload \<times> string option) \<times> event list" where
  "ExecuteSQL sql_Open config query =
     (case sql_Open (DSN config) of
        Inl err \<Rightarrow>
          ((Plain [], Some (''failed to connect to the database: '' @ err)),
           [SqlOpen (DSN config)])
      | Inr db \<Rightarrow>
          (case ExecuteSQL_db db query of
             (res, tr) \<Rightarrow> (res, SqlOpen (DSN config) # tr @ [DBClose])))"

section \<open>The handler of \<^verbatim>\<open>/execute\<close>\<close>

record Request =
  Method :: string
  Body :: stream

record Response =
  Status :: nat
  ContentType :: string
  Written :: payload

text \<open>\<^verbatim>\<open>http.Error(w, msg, code)\<close>: a plain-text reply, the message followed by a newline.\<close>

definition http_Error :: "string \<Rightarrow> nat \<Rightarrow> Response" where
  "http_Error msg code =
     \<lparr>Status = code, ContentType = ''text/plain; charset=utf-8'',
      Written = Plain (msg @ [CHR 0x0A])\<rparr>"

text \<open>
  The function literal of lines 106 to 128, with \<open>dbConfig\<close> the configuration the closure
  captured: the reply, and the calls made on the database layer.
\<close>

definition execute_handler :: "sql \<Rightarrow> DBConfig \<Rightarrow> Request \<Rightarrow> Response \<times> event list" where
  "execute_handler sql_Open dbConfig r =
     (if Method r \<noteq> ''POST'' then (http_Error ''Only POST method is supported'' 405, [])
      else
        (case Decode (Body r) \<lparr>Query = []\<rparr> of
           Inl err \<Rightarrow> (http_Error ''Invalid request payload'' 400, [])
         | Inr sqlReq \<Rightarrow>
             (case ExecuteSQL sql_Open dbConfig (Query sqlReq) of
                ((result, Some err), tr) \<Rightarrow> (http_Error err 500, tr)
              | ((result, None), tr) \<Rightarrow>
                  (\<lparr>Status = 200, ContentType = ''application/json'', Written = result\<rparr>, tr))))"

section \<open>A sample database\<close>

text \<open>
  A database layer to run the model on: a handle that answers five statements with a
  cursor and refuses the others, and a connection string it accepts. The cells are those the MySQL driver delivers: an
  \<^verbatim>\<open>int64\<close> for an integer column, a \<^verbatim>\<open>[]byte\<close> for a text column (here the bytes of
  \<^verbatim>\<open>ann\<close>), \<^verbatim>\<open>nil\<close> for NULL. The columns of \<open>legacy_cursor\<close> are named \<^verbatim>\<open>a\<close> followed by
  the byte \<^verbatim>\<open>0xFF\<close>, and \<^verbatim>\<open>a\<close> followed by the byte \<^verbatim>\<open>0xFE\<close>.
\<close>

definition demo_config :: DBConfig where
  "demo_config = \<lparr>DSN = ''app:pw@tcp(db:3306)/shop''\<rparr>"

definition users_cursor :: cursor where
  "users_cursor =
     \<lparr>Columns = Inr [''name'', ''id''],
      Fetched = [Inr [VBytes (Some [0x61, 0x6E, 0x6E]), VInt64 1], Inr [VNil, VInt64 2]],
      Err = None\<rparr>"

definition join_cursor :: cursor where
  "join_cursor =
     \<lparr>Columns = Inr [''id'', ''id''],
      Fetched = [Inr [VNil, VInt64 0]],
      Err = None\<rparr>"

definition legacy_cursor :: cursor where
  "legacy_cursor =
     \<lparr>Columns = Inr [[CHR ''a'', CHR 0xFF], [CHR ''a'', CHR 0xFE]],
      Fetched = [Inr [VInt64 1, VInt64 2]],
      Err = None\<rparr>"

definition empty_cursor :: cursor where
  "empty_cursor = \<lparr>Columns = Inr [''name'', ''id''], Fetched = [], Err = None\<rparr>"

definition lost_cursor :: cursor where
  "lost_cursor =
     \<lparr>Columns = Inr [''name'', ''id''],
      Fetched = [Inr [VBytes (Some [0x61, 0x6E, 0x6E]), VInt64 1]],
      Err = Some ''invalid connection''\<rparr>"

definition demo_db :: db where
  "demo_db query =
     (if query = ''SELECT name, id FROM users'' then Inr users_cursor
      else if query = ''SELECT u.id, o.id FROM users u, orders o'' then Inr join_cursor
      else if query = ''SELECT name, id FROM users WHERE 1 = 0'' then Inr empty_cursor
      else if query = ''SELECT name, id FROM archive'' then Inr lost_cursor
      else if query = ''SELECT * FROM legacy'' then Inr legacy_cursor
      else if query = [] then Inl ''Error 1065 (42000): Query was empty''
      else Inl ''Error 1064 (42000): You have an error in your SQL syntax'')"

definition demo_sql :: sql where
  "demo_sql dsn =
     (if dsn = ''app:pw@tcp(db:3306)/shop'' then Inr demo_db
      else Inl ''invalid DSN: missing the slash separating the database name'')"

section \<open>Facts about the row map and its encoding\<close>

lemma rowMap_updates: "rowMap columns columnData = AList.updates columns columnData []"
  by (simp add: rowMap_def AList.updates_def)

lemma rowMap_distinct: "distinct (map fst (rowMap columns columnData))"
  by (simp add: rowMap_updates AList.distinct_updates)

lemma rowMap_keys:
  "length columnData = length columns \<Longrightarrow> set (map fst (rowMap columns columnData)) = set columns"
proof -
  assume len: "length columnData = length columns"
  have "fst ` set (rowMap columns columnData) = dom (map_of (rowMap columns columnData))"
    by (simp add: dom_map_of_conv_image_fst)
  also have "\<dots> = set columns"
    using len by (simp add: rowMap_updates AList.updates_conv')
  finally show ?thesis by simp
qed

lemma map_upds_last:
  "length ys = length xs \<Longrightarrow> i < length xs \<Longrightarrow>
   \<forall>i'. i < i' \<and> i' < length xs \<longrightarrow> xs ! i' \<noteq> xs ! i \<Longrightarrow>
   (m(xs [\<mapsto>] ys)) (xs ! i) = Some (ys ! i)"
proof (induction xs arbitrary: ys i m)
  case Nil
  then show ?case by simp
next
  case (Cons a as)
  then obtain b bs where ys: "ys = b # bs" by (cases ys) auto
  show ?case
  proof (cases i)
    case 0
    have "a \<notin> set as"
    proof
      assume "a \<in> set as"
      then obtain n where "n < length as" "as ! n = a" by (auto simp: in_set_conv_nth)
      with Cons.prems(3) 0 show False by (auto dest: spec [of _ "Suc n"])
    qed
    with 0 ys show ?thesis by simp
  next
    case (Suc i')
    have later: "\<forall>k. i' < k \<and> k < length as \<longrightarrow> as ! k \<noteq> as ! i'"
    proof (intro allI impI)
      fix k assume "i' < k \<and> k < length as"
      with Cons.prems(3) [rule_format, of "Suc k"] Suc show "as ! k \<noteq> as ! i'" by simp
    qed
    have len: "length bs = length as" and i': "i' < length as"
      using Cons.prems ys Suc by simp_all
    show ?thesis
      unfolding ys Suc using Cons.IH [OF len i' later, of "m(a \<mapsto> b)"]
      by (simp only: map_upds_Cons nth_Cons_Suc)
  qed
qed

lemma rowMap_last:
  "length columnData = length columns \<Longrightarrow> i < length columns \<Longrightarrow>
   \<forall>i'. i < i' \<and> i' < length columns \<longrightarrow> columns ! i' \<noteq> columns ! i \<Longrightarrow>
   map_of (rowMap columns columnData) (columns ! i) = Some (columnData ! i)"
  by (simp add: rowMap_updates AList.updates_conv' map_upds_last)

lemma map_insort_key: "map f (insort_key f x xs) = insort (f x) (map f xs)"
  by (induction xs) simp_all

lemma map_sort_key: "map f (sort_key f xs) = sort (map f xs)"
  by (induction xs) (simp_all add: map_insort_key)

lemma coerce_valid: "valid_utf8 s \<Longrightarrow> coerce s = s"
proof (induction s rule: valid_utf8.induct)
  case 1
  then show ?case by simp
next
  case (2 c cs)
  show ?case
  proof (cases "c < CHR 0x80")
    case True
    with 2 show ?thesis by simp
  next
    case False
    with "2.prems" have n: "rune_size (c # cs) \<noteq> 0"
      and v: "valid_utf8 (drop (rune_size (c # cs)) (c # cs))"
      by (auto simp: Let_def simp del: rune_size.simps split: if_splits)
    from "2.IH"(2) [OF False refl n v] False n show ?thesis
      by (simp add: Let_def del: rune_size.simps)
  qed
qed

lemma sort_remdups_id: "sort (remdups xs) = xs \<longleftrightarrow> sorted xs \<and> distinct xs"
proof
  assume "sort (remdups xs) = xs"
  then have "sorted (sort (remdups xs)) \<and> distinct (sort (remdups xs)) \<longrightarrow> sorted xs \<and> distinct xs"
    by simp
  then show "sorted xs \<and> distinct xs" by simp
next
  assume "sorted xs \<and> distinct xs"
  then show "sort (remdups xs) = xs" by (simp add: distinct_remdups_id sort_key_id_if_sorted)
qed

lemma sorted_keys_rowMap:
  assumes "length columnData = length columns"
  shows "map fst (sort_key fst (rowMap columns columnData)) = sort (remdups columns)"
proof -
  let ?ks = "map fst (rowMap columns columnData)"
  have "sort ?ks = sort (remdups columns)"
  proof (rule sorted_distinct_set_unique)
    show "set (sort ?ks) = set (sort (remdups columns))"
      using rowMap_keys [OF assms] by simp
  qed (simp_all add: rowMap_distinct)
  then show ?thesis by (simp add: map_sort_key)
qed

lemma map_of_sort_key:
  "distinct (map fst m) \<Longrightarrow> map_of (sort_key fst m) = map_of m"
  by (rule map_of_inject_set [THEN iffD2]) (simp_all add: map_sort_key)

lemma marshal_entries_keys:
  "marshal_entries kvs = Inr js \<Longrightarrow> map fst js = map coerce (map fst kvs)"
  by (induction kvs arbitrary: js rule: marshal_entries.induct) (auto split: sum.splits)

lemma marshal_entries_nth:
  "marshal_entries kvs = Inr js \<Longrightarrow> p < length kvs \<Longrightarrow>
   \<exists>j. marshal_value (snd (kvs ! p)) = Inr j \<and> js ! p = (coerce (fst (kvs ! p)), j)"
proof (induction kvs arbitrary: js p rule: marshal_entries.induct)
  case 1
  then show ?case by simp
next
  case (2 k v kvs)
  from "2.prems"(1) obtain j js' where
    j: "marshal_value v = Inr j" and js': "marshal_entries kvs = Inr js'"
    and js: "js = (coerce k, j) # js'"
    by (auto split: sum.splits)
  show ?case
  proof (cases p)
    case 0
    with j js show ?thesis by simp
  next
    case (Suc p')
    with "2.prems"(2) have "p' < length kvs" by simp
    from "2.IH" [OF j js' this] Suc js show ?thesis by simp
  qed
qed

lemma marshal_slice_nth:
  "marshal_slice ms = Inr js \<Longrightarrow>
   length js = length ms \<and> (\<forall>n < length ms. marshal_map (ms ! n) = Inr (js ! n))"
proof (induction ms arbitrary: js)
  case Nil
  then show ?case by simp
next
  case (Cons m ms)
  then show ?case by (auto split: sum.splits simp: nth_Cons split: nat.splits)
qed

lemma iterate_Inr:
  "iterate columns rs result = (Inr res, tr) \<Longrightarrow>
   \<exists>cellss. rs = map Inr cellss \<and> (\<forall>cells \<in> set cellss. length cells = length columns)
     \<and> res = result @ map (rowMap columns) cellss"
proof (induction rs arbitrary: result tr)
  case Nil
  then show ?case by simp
next
  case (Cons r rs)
  from Cons.prems obtain cells tr' where
    sc: "Scan (length columns) r = Inr cells" and
    it: "iterate columns rs (result @ [rowMap columns cells]) = (Inr res, tr')"
    by (auto split: sum.splits prod.splits)
  from sc have r: "r = Inr cells" "length cells = length columns"
    by (auto simp: Scan_def split: sum.splits if_splits)
  from Cons.IH [OF it] obtain cellss where
    "rs = map Inr cellss" "\<forall>cells \<in> set cellss. length cells = length columns"
    "res = (result @ [rowMap columns cells]) @ map (rowMap columns) cellss"
    by blast
  with r show ?case by (intro exI [of _ "cells # cellss"]) simp
qed

section \<open>Facts about \<^verbatim>\<open>ExecuteSQL\<close>\<close>

lemma ExecuteSQL_opened:
  "sql_Open (DSN config) = Inr db \<Longrightarrow> db query = Inr rows \<Longrightarrow>
   ExecuteSQL sql_Open config query =
     (fst (ExecuteSQL_rows rows),
      SqlOpen (DSN config) # DBQuery query # snd (ExecuteSQL_rows rows) @ [RowsClose, DBClose])"
  by (simp add: ExecuteSQL_def ExecuteSQL_db_def split: prod.splits)

lemma ExecuteSQL_rows_success:
  assumes "Columns rows = Inr columns" and "fst (ExecuteSQL_rows rows) = (out, None)"
  shows "\<exists>cellss recs. Fetched rows = map Inr cellss
     \<and> (\<forall>cells \<in> set cellss. length cells = length columns)
     \<and> Err rows = None
     \<and> marshal_slice (map (rowMap columns) cellss) = Inr recs
     \<and> out = Document (JObject [(''result'', JArray recs)])"
proof -
  from assms obtain result tr where it: "iterate columns (Fetched rows) [] = (Inr result, tr)"
    by (auto simp: ExecuteSQL_rows_def split: prod.splits sum.splits option.splits)
  from iterate_Inr [OF it] obtain cellss where
    f: "Fetched rows = map Inr cellss" "\<forall>cells \<in> set cellss. length cells = length columns"
    and r: "result = map (rowMap columns) cellss"
    by auto
  from assms it have e: "Err rows = None"
    by (auto simp: ExecuteSQL_rows_def split: option.splits sum.splits)
  from assms it e obtain j where
    m: "Marshal \<lparr>Result = Some result, Error = []\<rparr> = Inr j" and o: "out = Document j"
    by (auto simp: ExecuteSQL_rows_def split: sum.splits)
  from m obtain recs where "marshal_slice result = Inr recs" "j = JObject [(''result'', JArray recs)]"
    by (auto simp: Marshal_def split: sum.splits)
  with f e r o show ?thesis by blast
qed

lemma ExecuteSQL_success:
  assumes "sql_Open (DSN config) = Inr db" and "db query = Inr rows"
    and "Columns rows = Inr columns"
    and "fst (ExecuteSQL sql_Open config query) = (out, None)"
  shows "\<exists>cellss recs. Fetched rows = map Inr cellss
     \<and> (\<forall>cells \<in> set cellss. length cells = length columns)
     \<and> Err rows = None
     \<and> marshal_slice (map (rowMap columns) cellss) = Inr recs
     \<and> out = Document (JObject [(''result'', JArray recs)])"
  using assms ExecuteSQL_rows_success [of rows columns out]
  by (simp add: ExecuteSQL_opened)

lemma record_of_row:
  assumes len: "length cells = length columns"
    and m: "marshal_map (rowMap columns cells) = Inr r"
  shows "\<exists>members. r = JObject members
     \<and> map fst members = map coerce (sort (remdups columns))
     \<and> (\<forall>i < length columns.
           (\<forall>i'. i < i' \<and> i' < length columns \<longrightarrow> columns ! i' \<noteq> columns ! i) \<longrightarrow>
           (\<exists>j p. marshal_value (cells ! i) = Inr j \<and> p < length members
              \<and> sort (remdups columns) ! p = columns ! i
              \<and> members ! p = (coerce (columns ! i), j)))"
proof -
  let ?kvs = "sort_key fst (rowMap columns cells)"
  from m obtain members where
    me: "marshal_entries ?kvs = Inr members" and r: "r = JObject members"
    by (auto simp: marshal_map_def split: sum.splits)
  have names: "map fst ?kvs = sort (remdups columns)"
    by (rule sorted_keys_rowMap [OF len])
  have keys: "map fst members = map coerce (sort (remdups columns))"
    using marshal_entries_keys [OF me] names by simp
  then have lm: "length members = length ?kvs"
    using names by (metis length_map)
  have "\<exists>j p. marshal_value (cells ! i) = Inr j \<and> p < length members
              \<and> sort (remdups columns) ! p = columns ! i
              \<and> members ! p = (coerce (columns ! i), j)"
    if i: "i < length columns"
      and last: "\<forall>i'. i < i' \<and> i' < length columns \<longrightarrow> columns ! i' \<noteq> columns ! i" for i
  proof -
    have v: "map_of ?kvs (columns ! i) = Some (cells ! i)"
      using rowMap_last [OF len i last] by (simp add: map_of_sort_key rowMap_distinct)
    then have "(columns ! i, cells ! i) \<in> set ?kvs" by (rule map_of_SomeD)
    then obtain p where p: "p < length ?kvs" "?kvs ! p = (columns ! i, cells ! i)"
      by (metis in_set_conv_nth)
    from marshal_entries_nth [OF me p(1)] p(2) obtain j where
      j: "marshal_value (cells ! i) = Inr j" "members ! p = (coerce (columns ! i), j)"
      by auto
    have "sort (remdups columns) ! p = fst (?kvs ! p)"
      using p(1) names by (metis nth_map)
    with p(2) have "sort (remdups columns) ! p = columns ! i" by simp
    with j p(1) lm show ?thesis by auto
  qed
  with r keys show ?thesis by blast
qed

lemma keys_of_record:
  assumes "map fst members = map coerce (sort (remdups columns))"
  shows "length members = card (set columns)"
    and "distinct columns \<Longrightarrow> length members = length columns"
    and "\<not> distinct columns \<Longrightarrow> length members < length columns"
proof -
  have "length members = length (sort (remdups columns))"
    using assms by (metis length_map)
  then show l: "length members = card (set columns)"
    by (simp add: length_remdups_card_conv)
  show "length members = length columns" if "distinct columns"
    using l distinct_card [OF that] by simp
  show "length members < length columns" if "\<not> distinct columns"
    using l that card_length [of columns] card_distinct [of columns]
    by (cases "card (set columns) = length columns") auto
qed

lemma valid_keys_of_record:
  assumes "map fst members = map coerce (sort (remdups columns))"
    and "\<forall>c \<in> set columns. valid_utf8 c"
  shows "map fst members = sort (remdups columns)"
    and "distinct (map fst members)" and "set (map fst members) = set columns"
proof -
  have "map coerce (sort (remdups columns)) = sort (remdups columns)"
    using assms(2) by (intro map_idI) (simp add: coerce_valid)
  with assms(1) show k: "map fst members = sort (remdups columns)" by simp
  then show "distinct (map fst members)" and "set (map fst members) = set columns"
    by simp_all
qed

lemma valid_lookup:
  assumes "distinct (map fst members)" and "p < length members" and "members ! p = (k, j)"
  shows "map_of members k = Some j"
proof -
  from assms(2,3) have "(k, j) \<in> set members" by (metis nth_mem)
  with assms(1) show ?thesis by simp
qed

lemma iterate_events: "set (snd (iterate columns rs result)) \<subseteq> {RowsNext, RowsScan}"
proof (induction rs arbitrary: result)
  case Nil
  then show ?case by simp
next
  case (Cons r rs)
  show ?case
  proof (cases "Scan (length columns) r")
    case (Inl e)
    then show ?thesis by simp
  next
    case (Inr cells)
    with Cons.IH [of "result @ [rowMap columns cells]"] show ?thesis
      by (auto split: prod.splits)
  qed
qed

lemma ExecuteSQL_rows_events:
  "set (snd (ExecuteSQL_rows rows)) \<subseteq> {RowsColumns, RowsNext, RowsScan, RowsErr}"
  using iterate_events [of "projr (Columns rows)" "Fetched rows" "[]"]
  by (auto simp: ExecuteSQL_rows_def split: sum.splits prod.splits option.splits)

lemma iterate_Inl:
  "i < length rs \<Longrightarrow> Scan (length columns) (rs ! i) = Inl e \<Longrightarrow>
   \<exists>msg. fst (iterate columns rs result) = Inl msg"
proof (induction rs arbitrary: i result)
  case Nil
  then show ?case by simp
next
  case (Cons r rs)
  show ?case
  proof (cases "Scan (length columns) r")
    case (Inl a)
    then show ?thesis by simp
  next
    case (Inr cells)
    with Cons.prems obtain i' where "i = Suc i'" by (cases i) auto
    with Cons.prems Cons.IH [of i' "result @ [rowMap columns cells]"] Inr
    show ?thesis by (auto split: prod.splits)
  qed
qed

lemma iterate_Inl_prefix:
  "fst (iterate columns rs result) = Inl msg \<Longrightarrow> \<exists>e. msg = ''failed to scan row: '' @ e"
proof (induction rs arbitrary: result)
  case Nil
  then show ?case by simp
next
  case (Cons r rs)
  show ?case
  proof (cases "Scan (length columns) r")
    case (Inl e)
    with Cons.prems show ?thesis by auto
  next
    case (Inr cells)
    with Cons.prems Cons.IH [of "result @ [rowMap columns cells]"] show ?thesis
      by (auto split: prod.splits)
  qed
qed

lemma ExecuteSQL_rows_error:
  assumes "fst (ExecuteSQL_rows rows) = (out, Some err)"
  shows "out = Plain [] \<and> err \<noteq> []"
proof (cases "Columns rows")
  case (Inl e)
  with assms show ?thesis by (auto simp: ExecuteSQL_rows_def)
next
  case (Inr columns)
  obtain res tr where it: "iterate columns (Fetched rows) [] = (res, tr)"
    by (cases "iterate columns (Fetched rows) []") auto
  show ?thesis
  proof (cases res)
    case (Inl msg)
    with it iterate_Inl_prefix [of columns "Fetched rows" "[]" msg] have "msg \<noteq> []" by auto
    with assms Inr it Inl show ?thesis by (auto simp: ExecuteSQL_rows_def)
  next
    case r: (Inr result)
    with assms Inr it show ?thesis
      by (auto simp: ExecuteSQL_rows_def split: option.splits sum.splits)
  qed
qed

lemma ExecuteSQL_error:
  assumes "fst (ExecuteSQL sql_Open config query) = (out, Some err)"
  shows "out = Plain [] \<and> err \<noteq> []"
proof (cases "sql_Open (DSN config)")
  case (Inl e)
  with assms show ?thesis by (auto simp: ExecuteSQL_def)
next
  case db: (Inr db)
  show ?thesis
  proof (cases "db query")
    case (Inl e)
    with assms db show ?thesis by (auto simp: ExecuteSQL_def ExecuteSQL_db_def)
  next
    case (Inr rows)
    with assms db ExecuteSQL_rows_error [of rows out err] show ?thesis
      by (simp add: ExecuteSQL_opened)
  qed
qed

lemma demo_opened: "demo_sql (DSN demo_config) = Inr demo_db"
  by (simp add: demo_sql_def demo_config_def)

lemma ExecuteSQL_result:
  assumes "sql_Open (DSN config) = Inr db" and "db query = Inr rows"
    and "Columns rows = Inr columns"
    and "fst (ExecuteSQL sql_Open config query) = (out, None)"
  shows "\<exists>recs. out = Document (JObject [(''result'', JArray recs)])
     \<and> length recs = length (Fetched rows)
     \<and> (\<forall>n < length recs. \<exists>cells. Fetched rows ! n = Inr cells
           \<and> length cells = length columns
           \<and> marshal_map (rowMap columns cells) = Inr (recs ! n))"
proof -
  from ExecuteSQL_success [OF assms] obtain cellss recs where
    f: "Fetched rows = map Inr cellss"
    and l: "\<forall>cells \<in> set cellss. length cells = length columns"
    and m: "marshal_slice (map (rowMap columns) cellss) = Inr recs"
    and o: "out = Document (JObject [(''result'', JArray recs)])"
    by blast
  from marshal_slice_nth [OF m] have
    n: "length recs = length cellss"
    and e: "\<forall>n < length cellss. marshal_map (rowMap columns (cellss ! n)) = Inr (recs ! n)"
    by simp_all
  have "\<exists>cells. Fetched rows ! n = Inr cells \<and> length cells = length columns
           \<and> marshal_map (rowMap columns cells) = Inr (recs ! n)" if "n < length recs" for n
    using that f l n e by (intro exI [of _ "cellss ! n"]) simp
  with o n f show ?thesis by simp
qed

lemma users_run:
  "fst (ExecuteSQL demo_sql demo_config ''SELECT name, id FROM users'') =
     (Document (JObject [(''result'', JArray
        [JObject [(''id'', JInt 1), (''name'', JBase64 [0x61, 0x6E, 0x6E])],
         JObject [(''id'', JInt 2), (''name'', JNull)]])]), None)"
proof -
  have q: "demo_db ''SELECT name, id FROM users'' = Inr users_cursor"
    by (simp add: demo_db_def)
  show ?thesis
    unfolding ExecuteSQL_opened [of demo_sql demo_config demo_db _ users_cursor, OF demo_opened q]
    by (simp add: ExecuteSQL_rows_def users_cursor_def Scan_def rowMap_def Marshal_def
        marshal_map_def)
qed

lemma join_run:
  "fst (ExecuteSQL demo_sql demo_config ''SELECT u.id, o.id FROM users u, orders o'') =
     (Document (JObject [(''result'', JArray [JObject [(''id'', JInt 0)]])]), None)"
proof -
  have q: "demo_db ''SELECT u.id, o.id FROM users u, orders o'' = Inr join_cursor"
    by (simp add: demo_db_def)
  show ?thesis
    unfolding ExecuteSQL_opened [of demo_sql demo_config demo_db _ join_cursor, OF demo_opened q]
    by (simp add: ExecuteSQL_rows_def join_cursor_def Scan_def rowMap_def Marshal_def
        marshal_map_def)
qed

lemma archive_run:
  "fst (ExecuteSQL demo_sql demo_config ''SELECT name, id FROM archive'') =
     (Plain [], Some ''error iterating over rows: invalid connection'')"
proof -
  have q: "demo_db ''SELECT name, id FROM archive'' = Inr lost_cursor"
    by (simp add: demo_db_def)
  show ?thesis
    unfolding ExecuteSQL_opened [of demo_sql demo_config demo_db _ lost_cursor, OF demo_opened q]
    by (simp add: ExecuteSQL_rows_def lost_cursor_def Scan_def)
qed

lemma legacy_run:
  "fst (ExecuteSQL demo_sql demo_config ''SELECT * FROM legacy'') =
     (Document (JObject [(''result'', JArray
        [JObject [([CHR ''a'', CHR 0xEF, CHR 0xBF, CHR 0xBD], JInt 2),
                  ([CHR ''a'', CHR 0xEF, CHR 0xBF, CHR 0xBD], JInt 1)]])]), None)"
proof -
  have q: "demo_db ''SELECT * FROM legacy'' = Inr legacy_cursor"
    by (simp add: demo_db_def)
  show ?thesis
    unfolding ExecuteSQL_opened [of demo_sql demo_config demo_db _ legacy_cursor, OF demo_opened q]
    by (simp add: ExecuteSQL_rows_def legacy_cursor_def Scan_def rowMap_def Marshal_def
        marshal_map_def)
qed

section \<open>The claims\<close>

subsection \<open>C1\<close>

text \<open>
  C1. When \<^verbatim>\<open>ExecuteSQL\<close> succeeds on a cursor that delivers \<open>N\<close> rows over the column
  names \<open>columns\<close>, the array \<^verbatim>\<open>result\<close> of its output holds exactly \<open>N\<close> records, the
  \<open>n\<close>-th one being the encoding of the map built from the \<open>n\<close>-th row (cursor order).
  Every record has one member per distinct column name, as many as there are columns when
  the names are pairwise distinct; the key of a member is the name with every byte that is
  not well-formed UTF-8 replaced by U+FFFD. When the names are valid UTF-8, the keys are
  the column names, each once.
\<close>

theorem records_of_result:
  assumes "sql_Open (DSN config) = Inr db" and "db query = Inr rows"
    and "Columns rows = Inr columns"
    and "fst (ExecuteSQL sql_Open config query) = (out, None)"
  shows "\<exists>recs. out = Document (JObject [(''result'', JArray recs)])
     \<and> length recs = length (Fetched rows)
     \<and> (\<forall>n < length recs. \<exists>cells members.
           Fetched rows ! n = Inr cells
           \<and> marshal_map (rowMap columns cells) = Inr (recs ! n)
           \<and> recs ! n = JObject members
           \<and> map fst members = map coerce (sort (remdups columns))
           \<and> length members = card (set columns)
           \<and> (distinct columns \<longrightarrow> length members = length columns)
           \<and> ((\<forall>c \<in> set columns. valid_utf8 c) \<longrightarrow>
                 distinct (map fst members) \<and> set (map fst members) = set columns))"
proof -
  from ExecuteSQL_result [OF assms] obtain recs where
    o: "out = Document (JObject [(''result'', JArray recs)])"
    and n: "length recs = length (Fetched rows)"
    and r: "\<forall>n < length recs. \<exists>cells. Fetched rows ! n = Inr cells
           \<and> length cells = length columns
           \<and> marshal_map (rowMap columns cells) = Inr (recs ! n)"
    by blast
  have "\<exists>cells members.
           Fetched rows ! n = Inr cells
           \<and> marshal_map (rowMap columns cells) = Inr (recs ! n)
           \<and> recs ! n = JObject members
           \<and> map fst members = map coerce (sort (remdups columns))
           \<and> length members = card (set columns)
           \<and> (distinct columns \<longrightarrow> length members = length columns)
           \<and> ((\<forall>c \<in> set columns. valid_utf8 c) \<longrightarrow>
                 distinct (map fst members) \<and> set (map fst members) = set columns)"
    if "n < length recs" for n
  proof -
    from r that obtain cells where
      c: "Fetched rows ! n = Inr cells" "length cells = length columns"
      "marshal_map (rowMap columns cells) = Inr (recs ! n)" by blast
    from record_of_row [OF c(2,3)] obtain members where
      m: "recs ! n = JObject members"
      "map fst members = map coerce (sort (remdups columns))" by blast
    from c m keys_of_record [OF m(2)] valid_keys_of_record(2,3) [OF m(2)]
    show ?thesis by blast
  qed
  with o n show ?thesis by blast
qed

theorem records_of_result_witness:
  "demo_sql (DSN demo_config) = Inr demo_db
   \<and> demo_db ''SELECT name, id FROM users'' = Inr users_cursor
   \<and> Columns users_cursor = Inr [''name'', ''id'']
   \<and> fst (ExecuteSQL demo_sql demo_config ''SELECT name, id FROM users'') =
       (Document (JObject [(''result'', JArray
          [JObject [(''id'', JInt 1), (''name'', JBase64 [0x61, 0x6E, 0x6E])],
           JObject [(''id'', JInt 2), (''name'', JNull)]])]), None)
   \<and> (\<exists>recs. Document (JObject [(''result'', JArray
          [JObject [(''id'', JInt 1), (''name'', JBase64 [0x61, 0x6E, 0x6E])],
           JObject [(''id'', JInt 2), (''name'', JNull)]])]) =
          Document (JObject [(''result'', JArray recs)])
        \<and> length recs = length (Fetched users_cursor))"
proof -
  have h2: "demo_db ''SELECT name, id FROM users'' = Inr users_cursor"
    by (simp add: demo_db_def)
  have h3: "Columns users_cursor = Inr [''name'', ''id'']"
    by (simp add: users_cursor_def)
  from records_of_result [of demo_sql demo_config demo_db _ users_cursor, OF demo_opened h2 h3 users_run]
    demo_opened h2 h3 users_run
  show ?thesis by blast
qed

text \<open>
  The claim as first stated (every record has exactly as many keys as there are columns,
  equal to the column names) fails in two ways. When two columns bear the same name, they
  share one key: a join that selects \<^verbatim>\<open>u.id\<close> and \<^verbatim>\<open>o.id\<close> has two columns named \<^verbatim>\<open>id\<close>, and
  its record has a single member. When a name is not valid UTF-8, the key is not the name:
  the two columns of \<open>legacy_cursor\<close> both come out under the key \<^verbatim>\<open>a\<close> followed by U+FFFD.
\<close>

theorem records_counterexample:
  "Columns join_cursor = Inr [''id'', ''id'']
   \<and> Fetched join_cursor = [Inr [VNil, VInt64 0]]
   \<and> demo_db ''SELECT u.id, o.id FROM users u, orders o'' = Inr join_cursor
   \<and> fst (ExecuteSQL demo_sql demo_config ''SELECT u.id, o.id FROM users u, orders o'') =
       (Document (JObject [(''result'', JArray [JObject [(''id'', JInt 0)]])]), None)
   \<and> length [(''id'', JInt 0)] \<noteq> length [''id'', ''id'']
   \<and> Columns legacy_cursor = Inr [[CHR ''a'', CHR 0xFF], [CHR ''a'', CHR 0xFE]]
   \<and> Fetched legacy_cursor = [Inr [VInt64 1, VInt64 2]]
   \<and> demo_db ''SELECT * FROM legacy'' = Inr legacy_cursor
   \<and> fst (ExecuteSQL demo_sql demo_config ''SELECT * FROM legacy'') =
       (Document (JObject [(''result'', JArray
          [JObject [([CHR ''a'', CHR 0xEF, CHR 0xBF, CHR 0xBD], JInt 2),
                    ([CHR ''a'', CHR 0xEF, CHR 0xBF, CHR 0xBD], JInt 1)]])]), None)
   \<and> set (map fst [([CHR ''a'', CHR 0xEF, CHR 0xBF, CHR 0xBD], JInt 2),
                    ([CHR ''a'', CHR 0xEF, CHR 0xBF, CHR 0xBD], JInt (1::int))])
       \<noteq> set [[CHR ''a'', CHR 0xFF], [CHR ''a'', CHR 0xFE]]"
  using join_run legacy_run by (simp add: join_cursor_def legacy_cursor_def demo_db_def)

subsection \<open>C2\<close>

text \<open>
  C2. When a row fails to scan or \<^verbatim>\<open>rows.Err()\<close> reports an error after the loop,
  \<^verbatim>\<open>ExecuteSQL\<close> returns the empty string together with a non-empty error: none of the rows
  decoded before the failure is returned.
\<close>

theorem no_partial_result:
  assumes "sql_Open (DSN config) = Inr db" and "db query = Inr rows"
    and "Columns rows = Inr columns"
    and "(\<exists>i < length (Fetched rows). \<exists>e. Scan (length columns) (Fetched rows ! i) = Inl e)
         \<or> (\<exists>e. Err rows = Some e)"
  shows "\<exists>msg. fst (ExecuteSQL sql_Open config query) = (Plain [], Some msg) \<and> msg \<noteq> []"
proof -
  obtain res tr where it: "iterate columns (Fetched rows) [] = (res, tr)"
    by (cases "iterate columns (Fetched rows) []") auto
  have "\<exists>msg. fst (ExecuteSQL_rows rows) = (Plain [], Some msg)"
  proof (cases res)
    case (Inl msg)
    with assms(3) it show ?thesis by (simp add: ExecuteSQL_rows_def)
  next
    case (Inr result)
    have "\<not> (\<exists>i < length (Fetched rows). \<exists>e. Scan (length columns) (Fetched rows ! i) = Inl e)"
    proof
      assume "\<exists>i < length (Fetched rows). \<exists>e. Scan (length columns) (Fetched rows ! i) = Inl e"
      then obtain i e where "i < length (Fetched rows)"
        "Scan (length columns) (Fetched rows ! i) = Inl e" by blast
      from iterate_Inl [OF this, of "[]"] it Inr show False by simp
    qed
    with assms(4) obtain e where "Err rows = Some e" by blast
    with assms(3) it Inr show ?thesis by (simp add: ExecuteSQL_rows_def)
  qed
  then obtain msg where m: "fst (ExecuteSQL sql_Open config query) = (Plain [], Some msg)"
    using assms(1,2) by (auto simp: ExecuteSQL_opened)
  with ExecuteSQL_error [OF m] show ?thesis by blast
qed

theorem no_partial_result_witness:
  "demo_sql (DSN demo_config) = Inr demo_db
   \<and> demo_db ''SELECT name, id FROM archive'' = Inr lost_cursor
   \<and> Columns lost_cursor = Inr [''name'', ''id'']
   \<and> Fetched lost_cursor = [Inr [VBytes (Some [0x61, 0x6E, 0x6E]), VInt64 1]]
   \<and> Err lost_cursor = Some ''invalid connection''
   \<and> fst (ExecuteSQL demo_sql demo_config ''SELECT name, id FROM archive'') =
       (Plain [], Some ''error iterating over rows: invalid connection'')"
proof -
  have h1: "demo_sql (DSN demo_config) = Inr demo_db"
    by (simp add: demo_sql_def demo_config_def)
  have h2: "demo_db ''SELECT name, id FROM archive'' = Inr lost_cursor"
    by (simp add: demo_db_def)
  have h3: "Columns lost_cursor = Inr [''name'', ''id'']"
    and h4: "Err lost_cursor = Some ''invalid connection''"
    and h5: "Fetched lost_cursor = [Inr [VBytes (Some [0x61, 0x6E, 0x6E]), VInt64 1]]"
    by (simp_all add: lost_cursor_def)
  have h6: "(\<exists>i < length (Fetched lost_cursor).
               \<exists>e. Scan (length [''name'', ''id'']) (Fetched lost_cursor ! i) = Inl e)
            \<or> (\<exists>e. Err lost_cursor = Some e)"
    using h4 by simp
  have "fst (ExecuteSQL demo_sql demo_config ''SELECT name, id FROM archive'') =
       (Plain [], Some ''error iterating over rows: invalid connection'')"
    by (simp add: ExecuteSQL_opened [of demo_sql demo_config demo_db _ lost_cursor, OF h1 h2] ExecuteSQL_rows_def lost_cursor_def Scan_def)
  with no_partial_result [of demo_sql demo_config demo_db _ lost_cursor, OF h1 h2 h3 h6] h1 h2 h3 h4 h5 show ?thesis by blast
qed

subsection \<open>C3\<close>

text \<open>
  C3. A POST request to \<^verbatim>\<open>/execute\<close> is answered with status 400, without any call on the
  database layer, when no first JSON value can be read from its body (the body is empty, or
  malformed before a first value is complete), or when the body starts with a JSON value
  that is neither an object nor \<^verbatim>\<open>null\<close>.
\<close>

theorem bad_request:
  assumes "Method r = ''POST''"
    and "Body r = NoValue
         \<or> (\<exists>j rest. Body r = Value j rest \<and> j \<noteq> JVNull \<and> (\<forall>kvs. j \<noteq> JVObject kvs))"
  shows "execute_handler sql_Open dbConfig r =
           (\<lparr>Status = 400, ContentType = ''text/plain; charset=utf-8'',
             Written = Plain (''Invalid request payload'' @ [CHR 0x0A])\<rparr>, [])"
proof -
  from assms(2) have "\<exists>e. Decode (Body r) \<lparr>Query = []\<rparr> = Inl e"
  proof
    assume "Body r = NoValue"
    then show ?thesis by (simp add: Decode_def)
  next
    assume "\<exists>j rest. Body r = Value j rest \<and> j \<noteq> JVNull \<and> (\<forall>kvs. j \<noteq> JVObject kvs)"
    then obtain j rest where "Body r = Value j rest" "j \<noteq> JVNull" "\<forall>kvs. j \<noteq> JVObject kvs"
      by blast
    then show ?thesis by (cases j) (simp_all add: Decode_def)
  qed
  with assms(1) show ?thesis by (auto simp: execute_handler_def http_Error_def)
qed

theorem bad_request_witness:
  "Method \<lparr>Method = ''POST'', Body = NoValue\<rparr> = ''POST''
   \<and> \<not> json_text (Body \<lparr>Method = ''POST'', Body = NoValue\<rparr>)
   \<and> execute_handler demo_sql demo_config \<lparr>Method = ''POST'', Body = NoValue\<rparr> =
         (\<lparr>Status = 400, ContentType = ''text/plain; charset=utf-8'',
           Written = Plain (''Invalid request payload'' @ [CHR 0x0A])\<rparr>, [])
   \<and> Method \<lparr>Method = ''POST'', Body = Value (JVArray [JVString ''SELECT 1'']) []\<rparr> = ''POST''
   \<and> execute_handler demo_sql demo_config
         \<lparr>Method = ''POST'', Body = Value (JVArray [JVString ''SELECT 1'']) []\<rparr> =
         (\<lparr>Status = 400, ContentType = ''text/plain; charset=utf-8'',
           Written = Plain (''Invalid request payload'' @ [CHR 0x0A])\<rparr>, [])"
proof -
  let ?r = "\<lparr>Method = ''POST'', Body = NoValue\<rparr>"
  let ?a = "\<lparr>Method = ''POST'', Body = Value (JVArray [JVString ''SELECT 1'']) []\<rparr>"
  have h1: "Method ?r = ''POST''"
    and h2: "Body ?r = NoValue
         \<or> (\<exists>j rest. Body ?r = Value j rest \<and> j \<noteq> JVNull \<and> (\<forall>kvs. j \<noteq> JVObject kvs))"
    by simp_all
  have a1: "Method ?a = ''POST''"
    and a2: "Body ?a = NoValue
         \<or> (\<exists>j rest. Body ?a = Value j rest \<and> j \<noteq> JVNull \<and> (\<forall>kvs. j \<noteq> JVObject kvs))"
    by simp_all
  from bad_request [OF h1 h2, of demo_sql demo_config]
    bad_request [OF a1 a2, of demo_sql demo_config] h1 a1
  show ?thesis by simp
qed

text \<open>
  The claim as first stated fails in two ways. A JSON body without the field \<^verbatim>\<open>query\<close> is
  accepted: the decoder leaves \<^verbatim>\<open>Query\<close> empty, and for the body \<^verbatim>\<open>{}\<close> the handler opens
  the database, sends the empty statement and answers with the status of a database
  failure. A body that is not JSON is accepted as well when it starts with a JSON value:
  the decoder stops after that value, and the query of a body that goes on with
  \<^verbatim>\<open>garbage\<close> after the closing brace is run and answered with status 200.
\<close>

theorem missing_query_counterexample:
  "Method \<lparr>Method = ''POST'', Body = Value (JVObject []) []\<rparr> = ''POST''
   \<and> json_text (Body \<lparr>Method = ''POST'', Body = Value (JVObject []) []\<rparr>)
   \<and> execute_handler demo_sql demo_config \<lparr>Method = ''POST'', Body = Value (JVObject []) []\<rparr> =
       (\<lparr>Status = 500, ContentType = ''text/plain; charset=utf-8'',
         Written = Plain (''query execution failed: Error 1065 (42000): Query was empty''
                          @ [CHR 0x0A])\<rparr>,
        [SqlOpen ''app:pw@tcp(db:3306)/shop'', DBQuery [], DBClose])
   \<and> Method \<lparr>Method = ''POST'',
        Body = Value (JVObject [(''query'', JVString ''SELECT name, id FROM users WHERE 1 = 0'')])
                 ''garbage''\<rparr> = ''POST''
   \<and> \<not> json_text (Body \<lparr>Method = ''POST'',
        Body = Value (JVObject [(''query'', JVString ''SELECT name, id FROM users WHERE 1 = 0'')])
                 ''garbage''\<rparr>)
   \<and> execute_handler demo_sql demo_config \<lparr>Method = ''POST'',
        Body = Value (JVObject [(''query'', JVString ''SELECT name, id FROM users WHERE 1 = 0'')])
                 ''garbage''\<rparr> =
       (\<lparr>Status = 200, ContentType = ''application/json'',
         Written = Document (JObject [(''result'', JArray [])])\<rparr>,
        [SqlOpen ''app:pw@tcp(db:3306)/shop'',
         DBQuery ''SELECT name, id FROM users WHERE 1 = 0'',
         RowsColumns, RowsNext, RowsErr, RowsClose, DBClose])"
  by (simp add: execute_handler_def Decode_def names_query_def to_lower_def is_space_def
      ExecuteSQL_def ExecuteSQL_db_def ExecuteSQL_rows_def Marshal_def empty_cursor_def
      demo_sql_def demo_config_def demo_db_def http_Error_def)

subsection \<open>C4\<close>

text \<open>
  C4. When \<^verbatim>\<open>ExecuteSQL\<close> returns an error on a POST request whose body was decoded, the
  handler answers with status 500 and a plain-text body: the error message, which is not
  empty, followed by a newline, with content type \<^verbatim>\<open>text/plain; charset=utf-8\<close>.
\<close>

theorem failure_reply:
  assumes "Method r = ''POST''"
    and "Decode (Body r) \<lparr>Query = []\<rparr> = Inr sqlReq"
    and "fst (ExecuteSQL sql_Open dbConfig (Query sqlReq)) = (out, Some err)"
  shows "fst (execute_handler sql_Open dbConfig r) =
           \<lparr>Status = 500, ContentType = ''text/plain; charset=utf-8'',
            Written = Plain (err @ [CHR 0x0A])\<rparr>
         \<and> err \<noteq> []"
  using assms ExecuteSQL_error [OF assms(3)]
  by (auto simp: execute_handler_def http_Error_def split: prod.splits)

theorem failure_reply_witness:
  "Method \<lparr>Method = ''POST'',
      Body = Value (JVObject [(''query'', JVString ''SELECT * FROM nowhere'')]) []\<rparr> = ''POST''
   \<and> Decode (Body \<lparr>Method = ''POST'',
      Body = Value (JVObject [(''query'', JVString ''SELECT * FROM nowhere'')]) []\<rparr>) \<lparr>Query = []\<rparr> =
       Inr \<lparr>Query = ''SELECT * FROM nowhere''\<rparr>
   \<and> fst (ExecuteSQL demo_sql demo_config ''SELECT * FROM nowhere'') =
       (Plain [], Some (''query execution failed: ''
          @ ''Error 1064 (42000): You have an error in your SQL syntax''))
   \<and> fst (execute_handler demo_sql demo_config \<lparr>Method = ''POST'',
      Body = Value (JVObject [(''query'', JVString ''SELECT * FROM nowhere'')]) []\<rparr>) =
       \<lparr>Status = 500, ContentType = ''text/plain; charset=utf-8'',
        Written = Plain ((''query execution failed: ''
          @ ''Error 1064 (42000): You have an error in your SQL syntax'') @ [CHR 0x0A])\<rparr>"
proof -
  let ?r = "\<lparr>Method = ''POST'',
      Body = Value (JVObject [(''query'', JVString ''SELECT * FROM nowhere'')]) []\<rparr>"
  have h1: "Method ?r = ''POST''" by simp
  have h2: "Decode (Body ?r) \<lparr>Query = []\<rparr> = Inr \<lparr>Query = ''SELECT * FROM nowhere''\<rparr>"
    by (simp add: Decode_def names_query_def to_lower_def)
  have h3: "fst (ExecuteSQL demo_sql demo_config (Query \<lparr>Query = ''SELECT * FROM nowhere''\<rparr>)) =
       (Plain [], Some (''query execution failed: ''
          @ ''Error 1064 (42000): You have an error in your SQL syntax''))"
    by (simp add: ExecuteSQL_def ExecuteSQL_db_def demo_sql_def demo_config_def demo_db_def)
  from failure_reply [OF h1 h2 h3] h1 h2 h3 show ?thesis by simp
qed

text \<open>
  The claim as first stated expects a JSON envelope with an \<^verbatim>\<open>error\<close> member as the body
  of the failure reply. The handler passes the error text to \<^verbatim>\<open>http.Error\<close>: the body of
  the reply to a query whose stream breaks is plain text, not a JSON document.
\<close>

theorem failure_reply_counterexample:
  "Method \<lparr>Method = ''POST'',
      Body = Value (JVObject [(''query'', JVString ''SELECT name, id FROM archive'')]) []\<rparr> = ''POST''
   \<and> fst (ExecuteSQL demo_sql demo_config ''SELECT name, id FROM archive'') =
       (Plain [], Some ''error iterating over rows: invalid connection'')
   \<and> fst (execute_handler demo_sql demo_config \<lparr>Method = ''POST'',
      Body = Value (JVObject [(''query'', JVString ''SELECT name, id FROM archive'')]) []\<rparr>) =
       \<lparr>Status = 500, ContentType = ''text/plain; charset=utf-8'',
        Written = Plain (''error iterating over rows: invalid connection'' @ [CHR 0x0A])\<rparr>"
  using archive_run
  by (auto simp: execute_handler_def Decode_def names_query_def to_lower_def http_Error_def
      split: prod.splits)

subsection \<open>C5\<close>

text \<open>
  C5. In every record of the output of \<^verbatim>\<open>ExecuteSQL\<close> the members appear in ascending
  byte-wise order of the distinct column names (each key being the name as the encoder
  writes it), so the order is the same in all records of one result set. For names that
  are valid UTF-8, it is the order of the columns in the cursor's metadata exactly when
  the columns come in strictly ascending order of their names.
\<close>

theorem key_order:
  assumes "sql_Open (DSN config) = Inr db" and "db query = Inr rows"
    and "Columns rows = Inr columns"
    and "fst (ExecuteSQL sql_Open config query) = (out, None)"
  shows "\<exists>recs. out = Document (JObject [(''result'', JArray recs)])
     \<and> (\<forall>n < length recs. \<exists>members.
           recs ! n = JObject members
           \<and> map fst members = map coerce (sort (remdups columns))
           \<and> ((\<forall>c \<in> set columns. valid_utf8 c) \<longrightarrow>
                 map fst members = sort (remdups columns)
                 \<and> (map fst members = columns \<longleftrightarrow> sorted columns \<and> distinct columns)))"
proof -
  from ExecuteSQL_result [OF assms] obtain recs where
    o: "out = Document (JObject [(''result'', JArray recs)])"
    and r: "\<forall>n < length recs. \<exists>cells. Fetched rows ! n = Inr cells
           \<and> length cells = length columns
           \<and> marshal_map (rowMap columns cells) = Inr (recs ! n)"
    by blast
  have "\<exists>members. recs ! n = JObject members
           \<and> map fst members = map coerce (sort (remdups columns))
           \<and> ((\<forall>c \<in> set columns. valid_utf8 c) \<longrightarrow>
                 map fst members = sort (remdups columns)
                 \<and> (map fst members = columns \<longleftrightarrow> sorted columns \<and> distinct columns))"
    if "n < length recs" for n
  proof -
    from r that obtain cells where
      "length cells = length columns" "marshal_map (rowMap columns cells) = Inr (recs ! n)"
      by blast
    from record_of_row [OF this] obtain members where
      m: "recs ! n = JObject members"
      "map fst members = map coerce (sort (remdups columns))" by blast
    have "map fst members = sort (remdups columns)
          \<and> (map fst members = columns \<longleftrightarrow> sorted columns \<and> distinct columns)"
      if "\<forall>c \<in> set columns. valid_utf8 c"
      using valid_keys_of_record(1) [OF m(2) that] sort_remdups_id [of columns] by simp
    with m show ?thesis by blast
  qed
  with o show ?thesis by blast
qed

theorem key_order_witness:
  "demo_sql (DSN demo_config) = Inr demo_db
   \<and> demo_db ''SELECT name, id FROM users'' = Inr users_cursor
   \<and> Columns users_cursor = Inr [''name'', ''id'']
   \<and> fst (ExecuteSQL demo_sql demo_config ''SELECT name, id FROM users'') =
       (Document (JObject [(''result'', JArray
          [JObject [(''id'', JInt 1), (''name'', JBase64 [0x61, 0x6E, 0x6E])],
           JObject [(''id'', JInt 2), (''name'', JNull)]])]), None)
   \<and> valid_utf8 ''name'' \<and> valid_utf8 ''id''
   \<and> (\<exists>members. JObject [(''id'', JInt 2), (''name'', JNull)] = JObject members
        \<and> map fst members = map coerce (sort (remdups [''name'', ''id'']))
        \<and> map fst members = sort (remdups [''name'', ''id'']))"
proof -
  let ?recs = "[JObject [(''id'', JInt 1), (''name'', JBase64 [0x61, 0x6E, 0x6E])],
           JObject [(''id'', JInt 2), (''name'', JNull)]]"
  have h2: "demo_db ''SELECT name, id FROM users'' = Inr users_cursor"
    by (simp add: demo_db_def)
  have h3: "Columns users_cursor = Inr [''name'', ''id'']"
    by (simp add: users_cursor_def)
  have v: "valid_utf8 ''name''" "valid_utf8 ''id''" by simp_all
  then have va: "\<forall>c \<in> set [''name'', ''id'']. valid_utf8 c" by simp
  from key_order [of demo_sql demo_config demo_db _ users_cursor, OF demo_opened h2 h3 users_run]
  have "\<forall>n < length ?recs. \<exists>members.
           ?recs ! n = JObject members
           \<and> map fst members = map coerce (sort (remdups [''name'', ''id'']))
           \<and> ((\<forall>c \<in> set [''name'', ''id'']. valid_utf8 c) \<longrightarrow>
                 map fst members = sort (remdups [''name'', ''id''])
                 \<and> (map fst members = [''name'', ''id''] \<longleftrightarrow>
                      sorted [''name'', ''id''] \<and> distinct [''name'', ''id'']))"
    by blast
  from this [rule_format, of 1] va have
    "\<exists>members. JObject [(''id'', JInt 2), (''name'', JNull)] = JObject members
        \<and> map fst members = map coerce (sort (remdups [''name'', ''id'']))
        \<and> map fst members = sort (remdups [''name'', ''id''])"
    by auto
  with demo_opened h2 h3 users_run v show ?thesis by blast
qed

text \<open>
  The claim as first stated (keys in the database's column order) fails: for the columns
  \<^verbatim>\<open>name, id\<close> the records list \<^verbatim>\<open>id\<close> before \<^verbatim>\<open>name\<close>.
\<close>

theorem key_order_counterexample:
  "Columns users_cursor = Inr [''name'', ''id'']
   \<and> demo_db ''SELECT name, id FROM users'' = Inr users_cursor
   \<and> fst (ExecuteSQL demo_sql demo_config ''SELECT name, id FROM users'') =
       (Document (JObject [(''result'', JArray
          [JObject [(''id'', JInt 1), (''name'', JBase64 [0x61, 0x6E, 0x6E])],
           JObject [(''id'', JInt 2), (''name'', JNull)]])]), None)
   \<and> map fst [(''id'', JInt 1), (''name'', JBase64 [0x61, 0x6E, 0x6E])] \<noteq> [''name'', ''id'']"
  using users_run by (simp add: users_cursor_def demo_db_def)

subsection \<open>C6\<close>

text \<open>
  C6. In the output of \<^verbatim>\<open>ExecuteSQL\<close>, a cell that the driver decoded as NULL, in a column
  whose name no later column bears, is the JSON value \<^verbatim>\<open>null\<close> in the member written for
  that column's name in the record of its row (and so neither an empty string nor zero).
  When the column names are valid UTF-8, that member is the one found under the column's
  name.
\<close>

theorem null_cell:
  assumes "sql_Open (DSN config) = Inr db" and "db query = Inr rows"
    and "Columns rows = Inr columns"
    and "fst (ExecuteSQL sql_Open config query) = (out, None)"
  shows "\<exists>recs. out = Document (JObject [(''result'', JArray recs)])
     \<and> length recs = length (Fetched rows)
     \<and> (\<forall>n < length recs. \<exists>cells members.
           Fetched rows ! n = Inr cells \<and> recs ! n = JObject members
           \<and> (\<forall>i < length columns.
                 cells ! i = VNil
                 \<and> (\<forall>i'. i < i' \<and> i' < length columns \<longrightarrow> columns ! i' \<noteq> columns ! i) \<longrightarrow>
                 (\<exists>p < length members. sort (remdups columns) ! p = columns ! i
                    \<and> members ! p = (coerce (columns ! i), JNull))
                 \<and> ((\<forall>c \<in> set columns. valid_utf8 c) \<longrightarrow>
                       map_of members (columns ! i) = Some JNull)))"
proof -
  from ExecuteSQL_result [OF assms] obtain recs where
    o: "out = Document (JObject [(''result'', JArray recs)])"
    and n: "length recs = length (Fetched rows)"
    and r: "\<forall>n < length recs. \<exists>cells. Fetched rows ! n = Inr cells
           \<and> length cells = length columns
           \<and> marshal_map (rowMap columns cells) = Inr (recs ! n)"
    by blast
  have "\<exists>cells members.
           Fetched rows ! n = Inr cells \<and> recs ! n = JObject members
           \<and> (\<forall>i < length columns.
                 cells ! i = VNil
                 \<and> (\<forall>i'. i < i' \<and> i' < length columns \<longrightarrow> columns ! i' \<noteq> columns ! i) \<longrightarrow>
                 (\<exists>p < length members. sort (remdups columns) ! p = columns ! i
                    \<and> members ! p = (coerce (columns ! i), JNull))
                 \<and> ((\<forall>c \<in> set columns. valid_utf8 c) \<longrightarrow>
                       map_of members (columns ! i) = Some JNull))"
    if "n < length recs" for n
  proof -
    from r that obtain cells where
      c: "Fetched rows ! n = Inr cells" "length cells = length columns"
      "marshal_map (rowMap columns cells) = Inr (recs ! n)" by blast
    from record_of_row [OF c(2,3)] obtain members where
      m: "recs ! n = JObject members"
      and k: "map fst members = map coerce (sort (remdups columns))"
      and v: "\<forall>i < length columns.
           (\<forall>i'. i < i' \<and> i' < length columns \<longrightarrow> columns ! i' \<noteq> columns ! i) \<longrightarrow>
           (\<exists>j p. marshal_value (cells ! i) = Inr j \<and> p < length members
              \<and> sort (remdups columns) ! p = columns ! i
              \<and> members ! p = (coerce (columns ! i), j))"
      by blast
    have "(\<exists>p < length members. sort (remdups columns) ! p = columns ! i
                    \<and> members ! p = (coerce (columns ! i), JNull))
          \<and> ((\<forall>c \<in> set columns. valid_utf8 c) \<longrightarrow>
                map_of members (columns ! i) = Some JNull)"
      if i: "i < length columns" and nil: "cells ! i = VNil"
        and last: "\<forall>i'. i < i' \<and> i' < length columns \<longrightarrow> columns ! i' \<noteq> columns ! i" for i
    proof -
      from v i last nil obtain p where
        p: "p < length members" "sort (remdups columns) ! p = columns ! i"
        "members ! p = (coerce (columns ! i), JNull)"
        by auto
      have "map_of members (columns ! i) = Some JNull"
        if va: "\<forall>c \<in> set columns. valid_utf8 c"
      proof -
        from va i have "coerce (columns ! i) = columns ! i"
          by (simp add: coerce_valid)
        with p(3) have "members ! p = (columns ! i, JNull)" by simp
        from valid_lookup [OF valid_keys_of_record(2) [OF k va] p(1) this]
        show ?thesis .
      qed
      with p show ?thesis by blast
    qed
    with c(1) m show ?thesis by blast
  qed
  with o n show ?thesis by blast
qed

theorem null_cell_witness:
  "demo_sql (DSN demo_config) = Inr demo_db
   \<and> demo_db ''SELECT name, id FROM users'' = Inr users_cursor
   \<and> Columns users_cursor = Inr [''name'', ''id'']
   \<and> Fetched users_cursor ! 1 = Inr [VNil, VInt64 2]
   \<and> fst (ExecuteSQL demo_sql demo_config ''SELECT name, id FROM users'') =
       (Document (JObject [(''result'', JArray
          [JObject [(''id'', JInt 1), (''name'', JBase64 [0x61, 0x6E, 0x6E])],
           JObject [(''id'', JInt 2), (''name'', JNull)]])]), None)
   \<and> valid_utf8 ''name'' \<and> valid_utf8 ''id''
   \<and> map_of [(''id'', JInt 2), (''name'', JNull)] ''name'' = Some JNull"
proof -
  let ?recs = "[JObject [(''id'', JInt 1), (''name'', JBase64 [0x61, 0x6E, 0x6E])],
           JObject [(''id'', JInt 2), (''name'', JNull)]]"
  let ?cols = "[''name'', ''id'']"
  have h2: "demo_db ''SELECT name, id FROM users'' = Inr users_cursor"
    by (simp add: demo_db_def)
  have h3: "Columns users_cursor = Inr ?cols"
    and h4: "Fetched users_cursor ! 1 = Inr [VNil, VInt64 2]"
    by (simp_all add: users_cursor_def)
  have v: "valid_utf8 ''name''" "valid_utf8 ''id''" by simp_all
  then have va: "\<forall>c \<in> set ?cols. valid_utf8 c" by simp
  from null_cell [of demo_sql demo_config demo_db _ users_cursor, OF demo_opened h2 h3 users_run]
  have "\<forall>n < length ?recs. \<exists>cells members.
           Fetched users_cursor ! n = Inr cells \<and> ?recs ! n = JObject members
           \<and> (\<forall>i < length ?cols.
                 cells ! i = VNil
                 \<and> (\<forall>i'. i < i' \<and> i' < length ?cols \<longrightarrow> ?cols ! i' \<noteq> ?cols ! i) \<longrightarrow>
                 (\<exists>p < length members. sort (remdups ?cols) ! p = ?cols ! i
                    \<and> members ! p = (coerce (?cols ! i), JNull))
                 \<and> ((\<forall>c \<in> set ?cols. valid_utf8 c) \<longrightarrow>
                       map_of members (?cols ! i) = Some JNull))"
    by blast
  from this [rule_format, of 1] h4 have
    "\<forall>i < length ?cols.
        [VNil, VInt64 2] ! i = VNil
        \<and> (\<forall>i'. i < i' \<and> i' < length ?cols \<longrightarrow> ?cols ! i' \<noteq> ?cols ! i) \<longrightarrow>
        ((\<forall>c \<in> set ?cols. valid_utf8 c) \<longrightarrow>
           map_of [(''id'', JInt 2), (''name'', JNull)] (?cols ! i) = Some JNull)"
    by auto
  from this [rule_format, of 0] va have
    "map_of [(''id'', JInt 2), (''name'', JNull)] ''name'' = Some JNull"
    by (simp add: less_Suc_eq)
  with demo_opened h2 h3 h4 users_run v show ?thesis by blast
qed

text \<open>
  The claim as first stated speaks of every NULL cell. When a later column bears the same
  name, its value replaces the NULL: the row \<^verbatim>\<open>NULL, 0\<close> over two columns named \<^verbatim>\<open>id\<close>
  gives the record \<^verbatim>\<open>{"id":0}\<close>.
\<close>

theorem null_cell_counterexample:
  "Columns join_cursor = Inr [''id'', ''id'']
   \<and> Fetched join_cursor = [Inr [VNil, VInt64 0]]
   \<and> [VNil, VInt64 0] ! 0 = VNil
   \<and> demo_db ''SELECT u.id, o.id FROM users u, orders o'' = Inr join_cursor
   \<and> fst (ExecuteSQL demo_sql demo_config ''SELECT u.id, o.id FROM users u, orders o'') =
       (Document (JObject [(''result'', JArray [JObject [(''id'', JInt 0)]])]), None)
   \<and> map_of [(''id'', JInt 0)] ([''id'', ''id''] ! 0) = Some (JInt 0)
   \<and> JInt 0 \<noteq> JNull"
  using join_run by (simp add: join_cursor_def demo_db_def)

subsection \<open>C7\<close>

text \<open>
  C7. When the cursor delivers no row and reports no error, \<^verbatim>\<open>ExecuteSQL\<close> returns the
  document \<^verbatim>\<open>{"result":[]}\<close>: the member \<^verbatim>\<open>result\<close> is present and is an empty array, not
  \<^verbatim>\<open>null\<close>. The handler writes that document with status 200.
\<close>

theorem empty_result_present:
  assumes "sql_Open (DSN config) = Inr db" and "db query = Inr rows"
    and "Columns rows = Inr columns" and "Fetched rows = []" and "Err rows = None"
  shows "fst (ExecuteSQL sql_Open config query) =
           (Document (JObject [(''result'', JArray [])]), None)
         \<and> (Method r = ''POST'' \<and> Decode (Body r) \<lparr>Query = []\<rparr> = Inr \<lparr>Query = query\<rparr> \<longrightarrow>
              fst (execute_handler sql_Open config r) =
                \<lparr>Status = 200, ContentType = ''application/json'',
                 Written = Document (JObject [(''result'', JArray [])])\<rparr>)"
proof -
  have e: "fst (ExecuteSQL sql_Open config query) =
           (Document (JObject [(''result'', JArray [])]), None)"
    using assms by (simp add: ExecuteSQL_opened ExecuteSQL_rows_def Marshal_def)
  then show ?thesis
    by (auto simp: execute_handler_def split: prod.splits option.splits)
qed

theorem empty_result_present_witness:
  "demo_sql (DSN demo_config) = Inr demo_db
   \<and> demo_db ''SELECT name, id FROM users WHERE 1 = 0'' = Inr empty_cursor
   \<and> Columns empty_cursor = Inr [''name'', ''id'']
   \<and> Fetched empty_cursor = [] \<and> Err empty_cursor = None
   \<and> Method \<lparr>Method = ''POST'',
        Body = Value (JVObject [(''query'', JVString ''SELECT name, id FROM users WHERE 1 = 0'')]) []\<rparr>
       = ''POST''
   \<and> Decode (Body \<lparr>Method = ''POST'',
        Body = Value (JVObject [(''query'', JVString ''SELECT name, id FROM users WHERE 1 = 0'')]) []\<rparr>)
        \<lparr>Query = []\<rparr> = Inr \<lparr>Query = ''SELECT name, id FROM users WHERE 1 = 0''\<rparr>
   \<and> fst (ExecuteSQL demo_sql demo_config ''SELECT name, id FROM users WHERE 1 = 0'') =
       (Document (JObject [(''result'', JArray [])]), None)
   \<and> fst (execute_handler demo_sql demo_config \<lparr>Method = ''POST'',
        Body = Value (JVObject [(''query'', JVString ''SELECT name, id FROM users WHERE 1 = 0'')]) []\<rparr>) =
       \<lparr>Status = 200, ContentType = ''application/json'',
        Written = Document (JObject [(''result'', JArray [])])\<rparr>"
proof -
  let ?r = "\<lparr>Method = ''POST'',
        Body = Value (JVObject [(''query'', JVString ''SELECT name, id FROM users WHERE 1 = 0'')]) []\<rparr>"
  have h1: "demo_sql (DSN demo_config) = Inr demo_db"
    by (simp add: demo_sql_def demo_config_def)
  have h2: "demo_db ''SELECT name, id FROM users WHERE 1 = 0'' = Inr empty_cursor"
    by (simp add: demo_db_def)
  have h3: "Columns empty_cursor = Inr [''name'', ''id'']"
    and h4: "Fetched empty_cursor = []" and h5: "Err empty_cursor = None"
    by (simp_all add: empty_cursor_def)
  have h6: "Method ?r = ''POST''" by simp
  have h7: "Decode (Body ?r) \<lparr>Query = []\<rparr> = Inr \<lparr>Query = ''SELECT name, id FROM users WHERE 1 = 0''\<rparr>"
    by (simp add: Decode_def names_query_def to_lower_def)
  from empty_result_present [of demo_sql demo_config demo_db _ empty_cursor _ ?r, OF h1 h2 h3 h4 h5] h1 h2 h3 h4 h5 h6 h7 show ?thesis
    by simp
qed

subsection \<open>C8\<close>

text \<open>
  C8. A request to \<^verbatim>\<open>/execute\<close> whose method is not POST is answered with status 405
  (method not allowed), whatever its body, and the handler makes no call on the database
  layer: not even \<^verbatim>\<open>sql.Open\<close>.
\<close>

theorem method_not_allowed:
  assumes "Method r \<noteq> ''POST''"
  shows "execute_handler sql_Open dbConfig r =
           (\<lparr>Status = 405, ContentType = ''text/plain; charset=utf-8'',
             Written = Plain (''Only POST method is supported'' @ [CHR 0x0A])\<rparr>, [])"
  using assms by (simp add: execute_handler_def http_Error_def)

theorem method_not_allowed_witness:
  "Method \<lparr>Method = ''GET'', Body = Value (JVObject [(''query'', JVString ''DROP TABLE users'')]) []\<rparr>
     \<noteq> ''POST''
   \<and> execute_handler demo_sql demo_config
       \<lparr>Method = ''GET'', Body = Value (JVObject [(''query'', JVString ''DROP TABLE users'')]) []\<rparr> =
         (\<lparr>Status = 405, ContentType = ''text/plain; charset=utf-8'',
           Written = Plain (''Only POST method is supported'' @ [CHR 0x0A])\<rparr>, [])"
proof -
  have h: "Method \<lparr>Method = ''GET'',
      Body = Value (JVObject [(''query'', JVString ''DROP TABLE users'')]) []\<rparr> \<noteq> ''POST''"
    by simp
  from method_not_allowed [OF h, of demo_sql demo_config] h show ?thesis by simp
qed

subsection \<open>C9\<close>

text \<open>
  C9. Once \<^verbatim>\<open>db.Query\<close> has returned a cursor, \<^verbatim>\<open>ExecuteSQL\<close> calls \<^verbatim>\<open>rows.Close()\<close>
  exactly once, whatever the cursor then does (column metadata failing, a row failing to
  scan, the stream failing, the encoding failing, or success): the call is the last one on
  the cursor, followed only by \<^verbatim>\<open>db.Close()\<close>.
\<close>

theorem cursor_closed_once:
  assumes "sql_Open (DSN config) = Inr db" and "db query = Inr rows"
  shows "\<exists>tr. snd (ExecuteSQL sql_Open config query) =
             SqlOpen (DSN config) # DBQuery query # tr @ [RowsClose, DBClose]
           \<and> RowsClose \<notin> set tr
           \<and> length (filter (\<lambda>e. e = RowsClose) (snd (ExecuteSQL sql_Open config query))) = 1"
proof -
  let ?tr = "snd (ExecuteSQL_rows rows)"
  have no: "RowsClose \<notin> set ?tr"
    using ExecuteSQL_rows_events [of rows] by auto
  then have "filter (\<lambda>e. e = RowsClose) ?tr = []"
    by (auto simp: filter_empty_conv)
  with no assms show ?thesis
    by (intro exI [of _ ?tr]) (simp add: ExecuteSQL_opened)
qed

theorem cursor_closed_once_witness:
  "demo_sql (DSN demo_config) = Inr demo_db
   \<and> demo_db ''SELECT name, id FROM archive'' = Inr lost_cursor
   \<and> snd (ExecuteSQL demo_sql demo_config ''SELECT name, id FROM archive'') =
       [SqlOpen ''app:pw@tcp(db:3306)/shop'', DBQuery ''SELECT name, id FROM archive'',
        RowsColumns, RowsNext, RowsScan, RowsNext, RowsErr, RowsClose, DBClose]
   \<and> length (filter (\<lambda>e. e = RowsClose)
        (snd (ExecuteSQL demo_sql demo_config ''SELECT name, id FROM archive''))) = 1"
proof -
  have h1: "demo_sql (DSN demo_config) = Inr demo_db"
    by (simp add: demo_sql_def demo_config_def)
  have h2: "demo_db ''SELECT name, id FROM archive'' = Inr lost_cursor"
    by (simp add: demo_db_def)
  have tr: "snd (ExecuteSQL demo_sql demo_config ''SELECT name, id FROM archive'') =
       [SqlOpen ''app:pw@tcp(db:3306)/shop'', DBQuery ''SELECT name, id FROM archive'',
        RowsColumns, RowsNext, RowsScan, RowsNext, RowsErr, RowsClose, DBClose]"
    unfolding ExecuteSQL_opened [of demo_sql demo_config demo_db _ lost_cursor, OF h1 h2]
    by (simp add: ExecuteSQL_rows_def lost_cursor_def Scan_def demo_config_def)
  from cursor_closed_once [of demo_sql demo_config demo_db _ lost_cursor, OF h1 h2] h1 h2 tr show ?thesis by blast
qed

subsection \<open>C10\<close>



end
